theory Spec2Isabelle
  imports Main "HOL-Library.AList"
begin

section \<open>Data model\<close>

text \<open>
  A turn of a conversation is the dict \<^verbatim>\<open>{"from": ..., "value": ...}\<close> of the dataset.
  The role is kept as the string the code compares (\<^verbatim>\<open>conv["from"] == "human"\<close>), so
  roles other than \<^verbatim>\<open>human\<close> and \<^verbatim>\<open>gpt\<close> are inputs of the model as well.
\<close>

record turn =
  turn_from :: string
  turn_value :: string

text \<open>
  The pairs built by \<^verbatim>\<open>display_conversations\<close> are Python dicts with the keys
  \<^verbatim>\<open>"question"\<close> and \<^verbatim>\<open>"answer"\<close>. A dict is an association list in insertion order;
  \<^verbatim>\<open>{}\<close> is \<open>[]\<close>, and the truth value of a dict is that it is not empty.
\<close>

type_synonym pydict = "(string \<times> string) list"

definition dict_set :: "string \<Rightarrow> string \<Rightarrow> pydict \<Rightarrow> pydict" where
  \<comment> \<open>\<^verbatim>\<open>d[k] = v\<close>\<close>
  "dict_set k v d = AList.update k v d"

definition dict_in :: "string \<Rightarrow> pydict \<Rightarrow> bool" where
  \<comment> \<open>\<^verbatim>\<open>k in d\<close>\<close>
  "dict_in k d = (case map_of d k of None \<Rightarrow> False | Some _ \<Rightarrow> True)"

definition dict_get :: "pydict \<Rightarrow> string \<Rightarrow> string \<Rightarrow> string" where
  \<comment> \<open>\<^verbatim>\<open>d.get(k, default)\<close>\<close>
  "dict_get d k dflt = (case map_of d k of None \<Rightarrow> dflt | Some v \<Rightarrow> v)"

definition truthy :: "'a list \<Rightarrow> bool" where
  \<comment> \<open>Python's truth value of a str, a list or a dict: not empty.\<close>
  "truthy xs = (case xs of [] \<Rightarrow> False | _ # _ \<Rightarrow> True)"

section \<open>The reviewer's form input\<close>

text \<open>
  The widgets of \<^verbatim>\<open>display_conversations\<close> are identified by their keys:
  \<^verbatim>\<open>q{i}\<close> and \<^verbatim>\<open>a{i}\<close> for the existing pairs (numbered from 1), \<^verbatim>\<open>new_q{i}\<close> and
  \<^verbatim>\<open>new_a{i}\<close> for the empty slots (numbered from 0). \<^verbatim>\<open>st.text_input\<close> returns what
  the reviewer typed into the widget, which may depend on the default value shown;
  an untouched widget returns its default. \<^verbatim>\<open>st.number_input\<close> returns the number the
  reviewer chose: the number of new slots (the widget keeps it between 1 and 5) and the
  index of the selected record (kept below the number of records).
\<close>

datatype widget = Q nat | A nat | New_Q nat | New_A nat

record ui =
  text_input :: "widget \<Rightarrow> string \<Rightarrow> string"
  num_new :: nat
  selected_index :: nat

definition untouched :: "ui \<Rightarrow> bool" where
  \<comment> \<open>The reviewer typed nothing: every text widget returns its default.\<close>
  "untouched u = (\<forall>k d. text_input u k d = d)"

section \<open>\<^verbatim>\<open>display_conversations\<close>\<close>

subsection \<open>Lines 33 to 45: converting the turns into Q/A pairs\<close>

text \<open>
  The loop body, on the state \<open>(qa_pairs, current_pair)\<close>. The \<^verbatim>\<open>elif\<close> has no
  \<^verbatim>\<open>else\<close>: any other turn leaves the state as it is.
\<close>

definition pair_step :: "turn \<Rightarrow> pydict list \<times> pydict \<Rightarrow> pydict list \<times> pydict" where
  "pair_step conv st =
     (case st of (qa_pairs, current_pair) \<Rightarrow>
        if turn_from conv = ''human'' then
          (if truthy current_pair then qa_pairs @ [current_pair] else qa_pairs,
           [(''question'', turn_value conv)])
        else if turn_from conv = ''gpt'' \<and> dict_in ''question'' current_pair then
          (qa_pairs @ [dict_set ''answer'' (turn_value conv) current_pair], [])
        else (qa_pairs, current_pair))"

definition qa_pairs_of :: "turn list \<Rightarrow> pydict list" where
  "qa_pairs_of conversations =
     (case fold pair_step conversations ([], []) of (qa_pairs, current_pair) \<Rightarrow>
        if truthy current_pair then qa_pairs @ [current_pair] else qa_pairs)"

subsection \<open>Lines 47 to 54: the editable fields of the existing pairs\<close>

text \<open>\<^verbatim>\<open>enumerate(qa_pairs, 1)\<close>: the loop carries the index \<open>i\<close>, starting at 1.\<close>

fun edit_loop :: "ui \<Rightarrow> nat \<Rightarrow> pydict list \<Rightarrow> turn list \<Rightarrow> turn list" where
  "edit_loop u i [] edited_pairs = edited_pairs"
| "edit_loop u i (pair # rest) edited_pairs =
     (let q_value = text_input u (Q i) (dict_get pair ''question'' '''');
          a_value = text_input u (A i) (dict_get pair ''answer'' '''')
      in edit_loop u (Suc i) rest
           (edited_pairs @ [\<lparr>turn_from = ''human'', turn_value = q_value\<rparr>]
                         @ [\<lparr>turn_from = ''gpt'', turn_value = a_value\<rparr>]))"

subsection \<open>Lines 56 to 65: the empty slots for new pairs\<close>

fun new_loop :: "ui \<Rightarrow> nat list \<Rightarrow> turn list \<Rightarrow> turn list" where
  "new_loop u [] edited_pairs = edited_pairs"
| "new_loop u (i # rest) edited_pairs =
     (let q_value = text_input u (New_Q i) '''';
          a_value = text_input u (New_A i) ''''
      in new_loop u rest
           (if truthy q_value \<or> truthy a_value then
              edited_pairs @ [\<lparr>turn_from = ''human'', turn_value = q_value\<rparr>]
                           @ [\<lparr>turn_from = ''gpt'', turn_value = a_value\<rparr>]
            else edited_pairs))"

definition display_conversations :: "ui \<Rightarrow> turn list \<Rightarrow> turn list" where
  "display_conversations u conversations =
     (let qa_pairs = qa_pairs_of conversations;
          edited_pairs = edit_loop u 1 qa_pairs []
      in new_loop u [0 ..< num_new u] edited_pairs)"

subsection \<open>The pairing scan as the specification words it\<close>

text \<open>
  The specification describes the scan as a machine with the two states \<open>Empty\<close> and
  \<open>HasQuestion text\<close>, folded over the turns. These definitions follow the
  specification's words, not the code; they are compared with \<open>qa_pairs_of\<close> below.
\<close>

datatype accumulator = Empty | HasQuestion string

datatype qa_pair = QAPair (question: string) (answer: "string option")

fun spec_flush :: "accumulator \<Rightarrow> qa_pair list" where
  \<comment> \<open>A pending question is flushed as a pair with no answer.\<close>
  "spec_flush Empty = []"
| "spec_flush (HasQuestion q) = [QAPair q None]"

fun spec_turn :: "accumulator \<Rightarrow> turn \<Rightarrow> qa_pair list \<times> accumulator" where
  "spec_turn acc t =
     (if turn_from t = ''human'' then (spec_flush acc, HasQuestion (turn_value t))
      else if turn_from t = ''gpt'' then
        (case acc of
           HasQuestion q \<Rightarrow> ([QAPair q (Some (turn_value t))], Empty)
         | Empty \<Rightarrow> ([], Empty))
      else ([], acc))"

fun spec_scan :: "accumulator \<Rightarrow> turn list \<Rightarrow> qa_pair list" where
  "spec_scan acc [] = spec_flush acc"
| "spec_scan acc (t # ts) =
     (case spec_turn acc t of (flushed, acc') \<Rightarrow> flushed @ spec_scan acc' ts)"

definition spec_reconstruct_pairs :: "turn list \<Rightarrow> qa_pair list" where
  "spec_reconstruct_pairs ts = spec_scan Empty ts"

fun dict_of_pair :: "qa_pair \<Rightarrow> pydict" where
  \<comment> \<open>The dict that stands for a pair: the answer key is absent when there is no answer.\<close>
  "dict_of_pair (QAPair q None) = [(''question'', q)]"
| "dict_of_pair (QAPair q (Some a)) = [(''question'', q), (''answer'', a)]"

fun dict_of_acc :: "accumulator \<Rightarrow> pydict" where
  "dict_of_acc Empty = []"
| "dict_of_acc (HasQuestion q) = [(''question'', q)]"

subsection \<open>Turn lists made of question/answer pairs\<close>

fun turns_of_pairs :: "(string \<times> string) list \<Rightarrow> turn list" where
  "turns_of_pairs [] = []"
| "turns_of_pairs ((q, a) # rest) =
     \<lparr>turn_from = ''human'', turn_value = q\<rparr> # \<lparr>turn_from = ''gpt'', turn_value = a\<rparr>
       # turns_of_pairs rest"

fun alternating :: "turn list \<Rightarrow> bool" where
  \<comment> \<open>Even length, \<^verbatim>\<open>human\<close> at the even positions and \<^verbatim>\<open>gpt\<close> at the odd ones.\<close>
  "alternating [] = True"
| "alternating [t] = False"
| "alternating (h # g # rest) =
     (turn_from h = ''human'' \<and> turn_from g = ''gpt'' \<and> alternating rest)"

fun edited_fields :: "ui \<Rightarrow> nat \<Rightarrow> pydict list \<Rightarrow> (string \<times> string) list" where
  \<comment> \<open>What the reviewer left in the fields \<^verbatim>\<open>Q{i}\<close>, \<^verbatim>\<open>A{i}\<close> of the existing pairs.\<close>
  "edited_fields u i [] = []"
| "edited_fields u i (pair # rest) =
     (text_input u (Q i) (dict_get pair ''question'' ''''),
      text_input u (A i) (dict_get pair ''answer'' '''')) # edited_fields u (Suc i) rest"

definition new_slot :: "ui \<Rightarrow> nat \<Rightarrow> string \<times> string" where
  \<comment> \<open>What the reviewer typed into the fields \<^verbatim>\<open>New Q{i+1}\<close>, \<^verbatim>\<open>New A{i+1}\<close>.\<close>
  "new_slot u i = (text_input u (New_Q i) '''', text_input u (New_A i) '''')"

definition other_role :: "turn \<Rightarrow> bool" where
  \<comment> \<open>A turn that the pairing ignores: neither \<^verbatim>\<open>human\<close> nor \<^verbatim>\<open>gpt\<close>.\<close>
  "other_role t = (turn_from t \<noteq> ''human'' \<and> turn_from t \<noteq> ''gpt'')"

section \<open>The library functions the program calls\<close>

text \<open>
  \<^verbatim>\<open>bytes.decode("utf-8")\<close>, \<^verbatim>\<open>str.strip\<close>, \<^verbatim>\<open>json.loads\<close> and \<^verbatim>\<open>json.dumps\<close> belong to
  Python's library, and the UTF-8 encoding of a downloaded text to the framework. They
  are parameters of the model. \<open>'c\<close> is the type of the characters of a Python \<^verbatim>\<open>str\<close>
  and \<open>'v\<close> the type of the values JSON text stands for. A \<open>char\<close> of HOL is a byte, so
  \<open>bytes\<close> are a \<open>string\<close>. An exception carries its message \<^verbatim>\<open>str(e)\<close>.
\<close>

type_synonym bytes = string

datatype exn = UnicodeDecodeError string | JSONDecodeError string

fun str_exn :: "exn \<Rightarrow> string" where
  "str_exn (UnicodeDecodeError m) = m"
| "str_exn (JSONDecodeError m) = m"

record ('c, 'v) pylib =
  newline :: 'c
  isspace :: "'c \<Rightarrow> bool"
  decode :: "bytes \<Rightarrow> exn + 'c list"
  encode1 :: "'c \<Rightarrow> bytes"
  loads :: "'c list \<Rightarrow> exn + 'v"
  dumps :: "bool \<Rightarrow> nat option \<Rightarrow> 'v \<Rightarrow> 'c list"

text \<open>
  \<open>newline\<close> is the character \<^verbatim>\<open>"\n"\<close>; \<open>isspace\<close> is \<^verbatim>\<open>str.isspace\<close> on one character;
  \<open>encode1\<close> is the UTF-8 encoding of one character; the arguments of \<open>dumps\<close> are
  \<^verbatim>\<open>ensure_ascii\<close>, \<^verbatim>\<open>indent\<close> and the value.
\<close>

definition strip :: "('c, 'v) pylib \<Rightarrow> 'c list \<Rightarrow> 'c list" where
  \<comment> \<open>\<^verbatim>\<open>str.strip()\<close>: leading and trailing whitespace removed.\<close>
  "strip L s = rev (dropWhile (isspace L) (rev (dropWhile (isspace L) s)))"


fun join :: "'a list \<Rightarrow> 'a list list \<Rightarrow> 'a list" where
  \<comment> \<open>\<^verbatim>\<open>sep.join(xs)\<close>\<close>
  "join sep [] = []"
| "join sep [x] = x"
| "join sep (x # y # rest) = x @ sep @ join sep (y # rest)"

text \<open>
  Iterating over a file yields its lines, each with its terminating newline, and a last
  line without one when the file does not end in a newline.
\<close>

function iter_lines :: "'a \<Rightarrow> 'a list \<Rightarrow> 'a list list" where
  "iter_lines nl [] = []"
| "iter_lines nl (x # xs) =
     (let line = takeWhile (\<lambda>c. c \<noteq> nl) (x # xs)
      in case dropWhile (\<lambda>c. c \<noteq> nl) (x # xs) of
           [] \<Rightarrow> [line]
         | n # rest \<Rightarrow> (line @ [n]) # iter_lines nl rest)"
  by pat_completeness auto
termination
proof (relation "measure (\<lambda>(nl, xs). length xs)")
  show "wf (measure (\<lambda>(nl, xs). length xs))" by simp
next
  fix nl :: 'a and x xs line n rest
  assume "dropWhile (\<lambda>c. c \<noteq> nl) (x # xs) = n # rest"
  then have "length (n # rest) \<le> length (x # xs)"
    by (metis length_dropWhile_le)
  then show "((nl, rest), (nl, x # xs)) \<in> measure (\<lambda>(nl, xs). length xs)"
    by simp
qed

section \<open>\<^verbatim>\<open>load_jsonl_data\<close>\<close>

text \<open>
  The loop of lines 11 to 14 on the list \<open>data\<close>; an exception raised by
  \<^verbatim>\<open>decode\<close> or \<^verbatim>\<open>json.loads\<close> leaves the loop at once.
\<close>

fun load_loop :: "('c, 'v) pylib \<Rightarrow> bytes list \<Rightarrow> 'v list \<Rightarrow> exn + 'v list" where
  "load_loop L [] data = Inr data"
| "load_loop L (line # rest) data =
     (case decode L line of
        Inl e \<Rightarrow> Inl e
      | Inr s \<Rightarrow>
          (let line' = strip L s
           in if truthy line' then
                (case loads L line' of
                   Inl e \<Rightarrow> Inl e
                 | Inr v \<Rightarrow> load_loop L rest (data @ [v]))
              else load_loop L rest data))"

text \<open>
  The function returns the list, or \<^verbatim>\<open>None\<close> after reporting the exception with
  \<^verbatim>\<open>st.error\<close>. The second component is what \<^verbatim>\<open>st.error\<close> was called with.
\<close>

datatype message = Error_loading_JSONL_file string

definition load_jsonl_data :: "('c, 'v) pylib \<Rightarrow> bytes \<Rightarrow> 'v list option \<times> message list" where
  "load_jsonl_data L uploaded_file =
     (case load_loop L (iter_lines (CHR 0x0A) uploaded_file) [] of
        Inr data \<Rightarrow> (Some data, [])
      | Inl e \<Rightarrow> (None, [Error_loading_JSONL_file (str_exn e)]))"

definition parse_line :: "('c, 'v) pylib \<Rightarrow> bytes \<Rightarrow> exn + 'v option" where
  \<comment> \<open>One pass of the loop on a line: an exception, nothing (a blank line), or a record.\<close>
  "parse_line L line =
     (case decode L line of
        Inl e \<Rightarrow> Inl e
      | Inr s \<Rightarrow>
          if truthy (strip L s) then
            (case loads L (strip L s) of Inl e \<Rightarrow> Inl e | Inr v \<Rightarrow> Inr (Some v))
          else Inr None)"

definition raises :: "('c, 'v) pylib \<Rightarrow> bytes \<Rightarrow> exn \<Rightarrow> bool" where
  \<comment> \<open>The loop body raises \<open>e\<close> on the line: decoding fails, or the line is not blank and \<^verbatim>\<open>json.loads\<close> fails.\<close>
  "raises L line e =
     (decode L line = Inl e
      \<or> (\<exists>s. decode L line = Inr s \<and> truthy (strip L s) \<and> loads L (strip L s) = Inl e))"


section \<open>\<^verbatim>\<open>main\<close>\<close>

text \<open>
  A record of the dataset. A key that the JSON object does not have is \<open>None\<close>; the
  defaults are substituted where the code reads the key with \<^verbatim>\<open>get\<close>.
\<close>

record item =
  item_id :: "string option"
  image :: "string option"
  caption :: "string option"
  conversations :: "turn list option"

definition get_conversations :: "item \<Rightarrow> turn list" where
  \<comment> \<open>\<^verbatim>\<open>current_item.get('conversations', [])\<close>\<close>
  "get_conversations it = (case conversations it of None \<Rightarrow> [] | Some ts \<Rightarrow> ts)"

definition serialize_one :: "('c, 'v) pylib \<Rightarrow> 'v \<Rightarrow> 'c list" where
  \<comment> \<open>Line 119: \<^verbatim>\<open>json.dumps(current_item, indent=2, ensure_ascii=False)\<close>\<close>
  "serialize_one L current_item = dumps L False (Some 2) current_item"

definition serialize_all :: "('c, 'v) pylib \<Rightarrow> 'v list \<Rightarrow> 'c list" where
  \<comment> \<open>Line 128: \<^verbatim>\<open>"\n".join(json.dumps(item, ensure_ascii=False) for item in data)\<close>\<close>
  "serialize_all L data = join [newline L] (map (dumps L False None) data)"

definition review_item :: "ui \<Rightarrow> item \<Rightarrow> item" where
  \<comment> \<open>Lines 114 to 116: the selected record after the edited turns are written back.\<close>
  "review_item u current_item =
     (let conversations = get_conversations current_item;
          edited_conversations = display_conversations u conversations
      in current_item\<lparr>conversations := Some edited_conversations\<rparr>)"

text \<open>
  What a run of \<^verbatim>\<open>main\<close> ends with: the prompt to upload both files, the early
  \<^verbatim>\<open>return\<close> of line 82, an \<^verbatim>\<open>IndexError\<close> at \<^verbatim>\<open>data[selected_index]\<close>, or the page with
  the dataset as edited and the two download texts. \<^verbatim>\<open>current_item\<close> is a reference into
  \<open>data\<close>, so writing the edited turns into it changes the dataset that line 128
  serializes. The image and the caption are only shown; they are left out.
\<close>

datatype 'c outcome =
    Please_upload
  | Returned
  | Index_error
  | Page "item list" "'c list" "'c list"

definition main ::
  "('c, item) pylib \<Rightarrow> ui \<Rightarrow> bytes option \<Rightarrow> 'i list \<Rightarrow> 'c outcome \<times> message list" where
  "main L u jsonl_file uploaded_images =
     (case jsonl_file of
        None \<Rightarrow> (Please_upload, [])
      | Some file \<Rightarrow>
          if truthy uploaded_images then
            (case load_jsonl_data L file of (loaded, errors) \<Rightarrow>
               (case loaded of
                  None \<Rightarrow> (Returned, errors)
                | Some data \<Rightarrow>
                    if \<not> truthy data then (Returned, errors)
                    else if selected_index u < length data then
                      (let current_item = review_item u (data ! selected_index u);
                           data' = data[selected_index u := current_item];
                           json_str = serialize_one L current_item;
                           all_json_str = serialize_all L data'
                       in (Page data' json_str all_json_str, errors))
                    else (Index_error, errors)))
          else (Please_upload, []))"

section \<open>What the round trip needs of the library\<close>



section \<open>An instance of the library\<close>

text \<open>
  A JSON library and a UTF-8 codec that can be run, for texts whose characters are the
  code points below 256 (a \<open>char\<close> stands for its code point) and for the JSON values
  that records are made of: strings, arrays, objects and the three literals. The writer
  follows \<^verbatim>\<open>json.dumps\<close>: the separators \<^verbatim>\<open>", "\<close> and \<^verbatim>\<open>": "\<close> without \<^verbatim>\<open>indent\<close>, a
  new line for each element with it, the two-character escapes of the quote, the
  backslash and the five named control characters, \<^verbatim>\<open>\u00XX\<close> for the other control
  characters, and for the characters outside ASCII only under \<^verbatim>\<open>ensure_ascii\<close>. The reader
  accepts the JSON grammar for these values, with whitespace between the tokens. Numbers
  and code points from 256 on are outside the instance.
\<close>

datatype json = JNull | JBool bool | JStr string | JArr "json list" | JObj "(string \<times> json) list"

definition hex_digit :: "nat \<Rightarrow> char" where
  "hex_digit n = (''0123456789abcdef'') ! (n mod 16)"

definition escape_char :: "bool \<Rightarrow> char \<Rightarrow> string" where
  \<comment> \<open>One character of a JSON string, as \<^verbatim>\<open>json.dumps\<close> writes it.\<close>
  "escape_char ensure_ascii c =
     (if c = CHR ''\"'' then [CHR 0x5C, CHR ''\"'']
      else if c = CHR 0x5C then [CHR 0x5C, CHR 0x5C]
      else if c = CHR 0x0A then [CHR 0x5C, CHR ''n'']
      else if c = CHR 0x0D then [CHR 0x5C, CHR ''r'']
      else if c = CHR 0x09 then [CHR 0x5C, CHR ''t'']
      else if c = CHR 0x08 then [CHR 0x5C, CHR ''b'']
      else if c = CHR 0x0C then [CHR 0x5C, CHR ''f'']
      else if (of_char c :: nat) < 0x20 \<or> (ensure_ascii \<and> (of_char c :: nat) > 0x7E) then
        [CHR 0x5C, CHR ''u'', CHR ''0'', CHR ''0'',
         hex_digit (of_char c div 16), hex_digit (of_char c)]
      else [c])"

definition quote :: "bool \<Rightarrow> string \<Rightarrow> string" where
  "quote ensure_ascii s = [CHR ''\"''] @ concat (map (escape_char ensure_ascii) s) @ [CHR ''\"'']"

definition line_break :: "nat option \<Rightarrow> nat \<Rightarrow> string" where
  \<comment> \<open>With \<^verbatim>\<open>indent=n\<close>, a new line indented to the nesting level; nothing without.\<close>
  "line_break indent level =
     (case indent of None \<Rightarrow> [] | Some n \<Rightarrow> CHR 0x0A # replicate (n * level) CHR '' '')"

definition item_separator :: "nat option \<Rightarrow> nat \<Rightarrow> string" where
  "item_separator indent level =
     (case indent of None \<Rightarrow> '', '' | Some n \<Rightarrow> '','' @ line_break indent level)"

definition bracket :: "nat option \<Rightarrow> nat \<Rightarrow> char \<Rightarrow> string list \<Rightarrow> char \<Rightarrow> string" where
  "bracket indent level opening parts closing =
     (if parts = [] then [opening, closing]
      else [opening] @ line_break indent (Suc level)
           @ join (item_separator indent (Suc level)) parts
           @ line_break indent level @ [closing])"

fun print_json :: "bool \<Rightarrow> nat option \<Rightarrow> nat \<Rightarrow> json \<Rightarrow> string"
  and print_elems :: "bool \<Rightarrow> nat option \<Rightarrow> nat \<Rightarrow> json list \<Rightarrow> string list"
  and print_members :: "bool \<Rightarrow> nat option \<Rightarrow> nat \<Rightarrow> (string \<times> json) list \<Rightarrow> string list"
where
  "print_json e ind lvl JNull = ''null''"
| "print_json e ind lvl (JBool b) = (if b then ''true'' else ''false'')"
| "print_json e ind lvl (JStr s) = quote e s"
| "print_json e ind lvl (JArr xs) = bracket ind lvl CHR ''['' (print_elems e ind (Suc lvl) xs) CHR '']''"
| "print_json e ind lvl (JObj ms) = bracket ind lvl CHR ''{'' (print_members e ind (Suc lvl) ms) CHR ''}''"
| "print_elems e ind lvl [] = []"
| "print_elems e ind lvl (x # xs) = print_json e ind lvl x # print_elems e ind lvl xs"
| "print_members e ind lvl [] = []"
| "print_members e ind lvl ((k, v) # ms) =
     (quote e k @ '': '' @ print_json e ind lvl v) # print_members e ind lvl ms"


definition is_ws :: "char \<Rightarrow> bool" where
  \<comment> \<open>The whitespace of the JSON grammar.\<close>
  "is_ws c = (c = CHR '' '' \<or> c = CHR 0x09 \<or> c = CHR 0x0A \<or> c = CHR 0x0D)"

definition skip_ws :: "string \<Rightarrow> string" where
  "skip_ws s = dropWhile is_ws s"

definition hex_value :: "char \<Rightarrow> nat option" where
  "hex_value c =
     (let n = (of_char c :: nat)
      in if 48 \<le> n \<and> n \<le> 57 then Some (n - 48)
         else if 97 \<le> n \<and> n \<le> 102 then Some (n - 87)
         else if 65 \<le> n \<and> n \<le> 70 then Some (n - 55)
         else None)"

fun hex_number :: "nat \<Rightarrow> string \<Rightarrow> nat option" where
  "hex_number acc [] = Some acc"
| "hex_number acc (c # cs) =
     (case hex_value c of None \<Rightarrow> None | Some d \<Rightarrow> hex_number (16 * acc + d) cs)"

definition unescape :: "char \<Rightarrow> char option" where
  \<comment> \<open>The character that a backslash and \<open>c\<close> stand for.\<close>
  "unescape c =
     (if c = CHR ''\"'' \<or> c = CHR 0x5C \<or> c = CHR ''/'' then Some c
      else if c = CHR ''n'' then Some (CHR 0x0A)
      else if c = CHR ''r'' then Some (CHR 0x0D)
      else if c = CHR ''t'' then Some (CHR 0x09)
      else if c = CHR ''b'' then Some (CHR 0x08)
      else if c = CHR ''f'' then Some (CHR 0x0C)
      else None)"

text \<open>
  The body of a string, after its opening quote: the text up to the closing quote and
  what follows it. A control character is refused, as \<^verbatim>\<open>json.loads\<close> does; so is an
  escape \<^verbatim>\<open>\uXXXX\<close> of a code point that is no \<open>char\<close>.
\<close>

fun parse_string :: "string \<Rightarrow> (string \<times> string) option" where
  "parse_string [] = None"
| "parse_string (c # cs) =
     (if c = CHR ''\"'' then Some ([], cs)
      else if c = CHR 0x5C then
        (case cs of
           [] \<Rightarrow> None
         | e # cs' \<Rightarrow>
             if e = CHR ''u'' then
               (if length cs' < 4 then None
                else case hex_number 0 (take 4 cs') of
                       None \<Rightarrow> None
                     | Some n \<Rightarrow>
                         if n < 256 then
                           (case parse_string (drop 4 cs') of
                              None \<Rightarrow> None
                            | Some (t, r) \<Rightarrow> Some (char_of n # t, r))
                         else None)
             else
               (case unescape e of
                  None \<Rightarrow> None
                | Some x \<Rightarrow>
                    (case parse_string cs' of
                       None \<Rightarrow> None
                     | Some (t, r) \<Rightarrow> Some (x # t, r))))
      else if (of_char c :: nat) < 0x20 then None
      else (case parse_string cs of None \<Rightarrow> None | Some (t, r) \<Rightarrow> Some (c # t, r)))"

definition literal :: "string \<Rightarrow> string \<Rightarrow> string option" where
  \<comment> \<open>What follows the word \<open>w\<close> at the head of \<open>s\<close>.\<close>
  "literal w s = (if take (length w) s = w then Some (drop (length w) s) else None)"

text \<open>
  Recursive descent with fuel: one unit for each value, each array element and each
  object member. \<open>parse_elems\<close> reads the elements of an array after its bracket,
  \<open>parse_members\<close> the members of an object after its brace.
\<close>

fun parse_value :: "nat \<Rightarrow> string \<Rightarrow> (json \<times> string) option"
  and parse_elems :: "nat \<Rightarrow> string \<Rightarrow> (json list \<times> string) option"
  and parse_members :: "nat \<Rightarrow> string \<Rightarrow> ((string \<times> json) list \<times> string) option"
where
  "parse_value 0 s = None"
| "parse_value (Suc n) s =
     (case skip_ws s of
        [] \<Rightarrow> None
      | c # cs \<Rightarrow>
          if c = CHR ''\"'' then
            (case parse_string cs of None \<Rightarrow> None | Some (t, r) \<Rightarrow> Some (JStr t, r))
          else if c = CHR ''['' then
            (case skip_ws cs of
               [] \<Rightarrow> None
             | d # r \<Rightarrow>
                 if d = CHR '']'' then Some (JArr [], r)
                 else (case parse_elems n cs of
                         None \<Rightarrow> None
                       | Some (xs, r') \<Rightarrow> Some (JArr xs, r')))
          else if c = CHR ''{'' then
            (case skip_ws cs of
               [] \<Rightarrow> None
             | d # r \<Rightarrow>
                 if d = CHR ''}'' then Some (JObj [], r)
                 else (case parse_members n cs of
                         None \<Rightarrow> None
                       | Some (ms, r') \<Rightarrow> Some (JObj ms, r')))
          else if c = CHR ''n'' then
            (case literal ''null'' (c # cs) of None \<Rightarrow> None | Some r \<Rightarrow> Some (JNull, r))
          else if c = CHR ''t'' then
            (case literal ''true'' (c # cs) of None \<Rightarrow> None | Some r \<Rightarrow> Some (JBool True, r))
          else if c = CHR ''f'' then
            (case literal ''false'' (c # cs) of None \<Rightarrow> None | Some r \<Rightarrow> Some (JBool False, r))
          else None)"
| "parse_elems 0 s = None"
| "parse_elems (Suc n) s =
     (case parse_value n s of
        None \<Rightarrow> None
      | Some (x, r) \<Rightarrow>
          (case skip_ws r of
             [] \<Rightarrow> None
           | d # r' \<Rightarrow>
               if d = CHR '']'' then Some ([x], r')
               else if d = CHR '','' then
                 (case parse_elems n r' of
                    None \<Rightarrow> None
                  | Some (xs, r'') \<Rightarrow> Some (x # xs, r''))
               else None))"
| "parse_members 0 s = None"
| "parse_members (Suc n) s =
     (case skip_ws s of
        [] \<Rightarrow> None
      | q # cs \<Rightarrow>
          if q = CHR ''\"'' then
            (case parse_string cs of
               None \<Rightarrow> None
             | Some (k, r) \<Rightarrow>
                 (case skip_ws r of
                    [] \<Rightarrow> None
                  | colon # r1 \<Rightarrow>
                      if colon = CHR '':'' then
                        (case parse_value n r1 of
                           None \<Rightarrow> None
                         | Some (v, r2) \<Rightarrow>
                             (case skip_ws r2 of
                                [] \<Rightarrow> None
                              | d # r3 \<Rightarrow>
                                  if d = CHR ''}'' then Some ([(k, v)], r3)
                                  else if d = CHR '','' then
                                    (case parse_members n r3 of
                                       None \<Rightarrow> None
                                     | Some (ms, r4) \<Rightarrow> Some ((k, v) # ms, r4))
                                  else None))
                      else None))
          else None)"

definition parse_json :: "string \<Rightarrow> json option" where
  \<comment> \<open>A whole text is one value, with whitespace around it at most.\<close>
  "parse_json s =
     (case parse_value (2 * length s) s of
        None \<Rightarrow> None
      | Some (v, r) \<Rightarrow> if skip_ws r = [] then Some v else None)"


subsection \<open>Records as JSON values\<close>

definition json_of_turn :: "turn \<Rightarrow> json" where
  "json_of_turn t = JObj [(''from'', JStr (turn_from t)), (''value'', JStr (turn_value t))]"

definition member :: "string \<Rightarrow> json option \<Rightarrow> (string \<times> json) list" where
  \<comment> \<open>The member of an object for a key that may be absent.\<close>
  "member k v = (case v of None \<Rightarrow> [] | Some x \<Rightarrow> [(k, x)])"

definition json_of_item :: "item \<Rightarrow> json" where
  "json_of_item it =
     JObj (member ''id'' (map_option JStr (item_id it))
           @ member ''image'' (map_option JStr (image it))
           @ member ''caption'' (map_option JStr (caption it))
           @ member ''conversations''
               (map_option (\<lambda>ts. JArr (map json_of_turn ts)) (conversations it)))"

fun turn_of_json :: "json \<Rightarrow> turn option" where
  "turn_of_json (JObj [(k1, JStr a), (k2, JStr b)]) =
     (if k1 = ''from'' \<and> k2 = ''value'' then Some \<lparr>turn_from = a, turn_value = b\<rparr>
      else if k1 = ''value'' \<and> k2 = ''from'' then Some \<lparr>turn_from = b, turn_value = a\<rparr>
      else None)"
| "turn_of_json _ = None"

fun set_member :: "string \<times> json \<Rightarrow> item option \<Rightarrow> item option" where
  "set_member (k, v) None = None"
| "set_member (k, v) (Some it) =
     (if k = ''id'' then
        (case v of JStr s \<Rightarrow> Some (it\<lparr>item_id := Some s\<rparr>) | _ \<Rightarrow> None)
      else if k = ''image'' then
        (case v of JStr s \<Rightarrow> Some (it\<lparr>image := Some s\<rparr>) | _ \<Rightarrow> None)
      else if k = ''caption'' then
        (case v of JStr s \<Rightarrow> Some (it\<lparr>caption := Some s\<rparr>) | _ \<Rightarrow> None)
      else if k = ''conversations'' then
        (case v of
           JArr xs \<Rightarrow>
             (case those (map turn_of_json xs) of
                None \<Rightarrow> None
              | Some ts \<Rightarrow> Some (it\<lparr>conversations := Some ts\<rparr>))
         | _ \<Rightarrow> None)
      else None)"

definition item_of_json :: "json \<Rightarrow> item option" where
  \<comment> \<open>The record a JSON object stands for; \<open>None\<close> for a value that is no record of the model.\<close>
  "item_of_json v =
     (case v of
        JObj ms \<Rightarrow>
          fold set_member ms
            (Some \<lparr>item_id = None, image = None, caption = None, conversations = None\<rparr>)
      | _ \<Rightarrow> None)"

definition json_loads :: "string \<Rightarrow> exn + item" where
  "json_loads s =
     (case parse_json s of
        None \<Rightarrow> Inl (JSONDecodeError ''Expecting value'')
      | Some v \<Rightarrow>
          (case item_of_json v of
             None \<Rightarrow> Inl (JSONDecodeError ''Not a record'')
           | Some it \<Rightarrow> Inr it))"

definition json_dumps :: "bool \<Rightarrow> nat option \<Rightarrow> item \<Rightarrow> string" where
  "json_dumps ensure_ascii indent it = print_json ensure_ascii indent 0 (json_of_item it)"

subsection \<open>UTF-8 for the code points below 256\<close>

definition utf8_encode1 :: "char \<Rightarrow> bytes" where
  "utf8_encode1 c =
     (let n = (of_char c :: nat)
      in if n < 128 then [c] else [char_of (192 + n div 64), char_of (128 + n mod 64)])"

fun utf8_decode :: "bytes \<Rightarrow> exn + string" where
  "utf8_decode [] = Inr []"
| "utf8_decode (b # bs) =
     (let n = (of_char b :: nat)
      in if n < 128 then
           (case utf8_decode bs of Inl e \<Rightarrow> Inl e | Inr s \<Rightarrow> Inr (b # s))
         else if n = 194 \<or> n = 195 then
           (case bs of
              [] \<Rightarrow> Inl (UnicodeDecodeError ''unexpected end of data'')
            | b2 # bs' \<Rightarrow>
                (let m = (of_char b2 :: nat)
                 in if 128 \<le> m \<and> m < 192 then
                      (case utf8_decode bs' of
                         Inl e \<Rightarrow> Inl e
                       | Inr s \<Rightarrow> Inr (char_of ((n - 192) * 64 + (m - 128)) # s))
                    else Inl (UnicodeDecodeError ''invalid continuation byte'')))
         else Inl (UnicodeDecodeError ''invalid start byte''))"

definition py_isspace :: "char \<Rightarrow> bool" where
  \<comment> \<open>\<^verbatim>\<open>str.isspace\<close> on the code points below 256.\<close>
  "py_isspace c =
     (let n = (of_char c :: nat)
      in (9 \<le> n \<and> n \<le> 13) \<or> (28 \<le> n \<and> n \<le> 32) \<or> n = 133 \<or> n = 160)"

definition json_lib :: "(char, item) pylib" where
  "json_lib =
     \<lparr>newline = CHR 0x0A, isspace = py_isspace, decode = utf8_decode,
      encode1 = utf8_encode1, loads = json_loads, dumps = json_dumps\<rparr>"

subsection \<open>The characters of a record\<close>

text \<open>
  The characters outside ASCII, and the characters of the values of a record in the order
  in which the record is written: \<^verbatim>\<open>id\<close>, \<^verbatim>\<open>image\<close>, \<^verbatim>\<open>caption\<close>, then each turn's
  \<^verbatim>\<open>from\<close> and \<^verbatim>\<open>value\<close>.
\<close>

definition non_ascii :: "char \<Rightarrow> bool" where
  "non_ascii c = (128 \<le> (of_char c :: nat))"


section \<open>Example inputs\<close>

definition no_edits :: ui where
  \<comment> \<open>A reviewer who opens the page and types nothing.\<close>
  "no_edits = \<lparr>text_input = (\<lambda>k d. d), num_new = 1, selected_index = 0\<rparr>"

definition rewrite_first :: ui where
  \<comment> \<open>A reviewer who rewrites the first pair and leaves the one new slot empty.\<close>
  "rewrite_first =
     \<lparr>text_input = (\<lambda>k d. case k of Q _ \<Rightarrow> ''newQ'' | A _ \<Rightarrow> ''newA'' | _ \<Rightarrow> d),
      num_new = 1, selected_index = 0\<rparr>"

definition add_question :: ui where
  \<comment> \<open>A reviewer who opens two new slots and types a question into the second only.\<close>
  "add_question =
     \<lparr>text_input = (\<lambda>k d. case k of New_Q (Suc 0) \<Rightarrow> ''why?'' | _ \<Rightarrow> d),
      num_new = 2, selected_index = 0\<rparr>"

definition human :: "string \<Rightarrow> turn" where
  "human v = \<lparr>turn_from = ''human'', turn_value = v\<rparr>"

definition gpt :: "string \<Rightarrow> turn" where
  "gpt v = \<lparr>turn_from = ''gpt'', turn_value = v\<rparr>"

definition system_turn :: "string \<Rightarrow> turn" where
  "system_turn v = \<lparr>turn_from = ''system'', turn_value = v\<rparr>"



section \<open>The pairing scan\<close>

lemma truthy_iff [simp]: "truthy xs \<longleftrightarrow> xs \<noteq> []"
  by (cases xs) (simp_all add: truthy_def)

lemma pair_step_acc:
  "pair_step t (qa, dict_of_acc acc) =
     (qa @ map dict_of_pair (fst (spec_turn acc t)), dict_of_acc (snd (spec_turn acc t)))"
  by (cases acc) (simp_all add: pair_step_def dict_in_def dict_set_def)

lemma fold_pair_step:
  "(case fold pair_step ts (qa, dict_of_acc acc) of (qa_pairs, current_pair) \<Rightarrow>
      if truthy current_pair then qa_pairs @ [current_pair] else qa_pairs)
   = qa @ map dict_of_pair (spec_scan acc ts)"
proof (induction ts arbitrary: qa acc)
  case Nil
  show ?case by (cases acc) simp_all
next
  case (Cons t ts)
  show ?case
    by (simp only: fold_simps pair_step_acc Cons.IH spec_scan.simps)
       (simp add: case_prod_unfold)
qed

lemma qa_pairs_of_scan: "qa_pairs_of ts = map dict_of_pair (spec_scan Empty ts)"
  using fold_pair_step [of ts "[]" Empty] by (simp add: qa_pairs_of_def)

text \<open>
  Claim C2. The pairs that lines 33 to 45 build are the pairs of the accumulator scan of
  the specification, for every list of turns: a \<^verbatim>\<open>human\<close> turn flushes a pending
  question as a pair without answer and becomes the pending question, a \<^verbatim>\<open>gpt\<close> turn
  completes and flushes a pending question and is dropped when there is none, and a
  question still pending at the end is flushed without answer.
\<close>

theorem qa_pairs_of_is_spec_scan:
  "qa_pairs_of ts = map dict_of_pair (spec_reconstruct_pairs ts)"
  by (simp add: qa_pairs_of_scan spec_reconstruct_pairs_def)

theorem qa_pairs_of_is_spec_scan_witness:
  "qa_pairs_of [gpt ''orphan'', human ''Q1'', human ''Q2'', gpt ''A2'', human ''Q3'']
     = [[(''question'', ''Q1'')],
        [(''question'', ''Q2''), (''answer'', ''A2'')],
        [(''question'', ''Q3'')]]"
  using qa_pairs_of_is_spec_scan
    [of "[gpt ''orphan'', human ''Q1'', human ''Q2'', gpt ''A2'', human ''Q3'']"]
  by (simp add: spec_reconstruct_pairs_def human_def gpt_def)

subsection \<open>One pair for each question\<close>

lemma length_spec_scan:
  "length (spec_scan acc ts) =
     length (spec_flush acc) + length (filter (\<lambda>t. turn_from t = ''human'') ts)"
proof (induction ts arbitrary: acc)
  case Nil
  show ?case by simp
next
  case (Cons t ts)
  show ?case by (cases acc) (simp_all add: Cons.IH)
qed

lemma questions_spec_scan:
  "map question (spec_scan acc ts) =
     map question (spec_flush acc) @ map turn_value (filter (\<lambda>t. turn_from t = ''human'') ts)"
proof (induction ts arbitrary: acc)
  case Nil
  show ?case by simp
next
  case (Cons t ts)
  show ?case by (cases acc) (simp_all add: Cons.IH)
qed

lemma map_of_dict_of_pair:
  "map_of (dict_of_pair p) ''question'' = Some (question p)"
  "map_of (dict_of_pair p) ''answer'' = answer p"
  by (cases p; cases "answer p"; simp)+

text \<open>
  An answered pair \<open>(q, a)\<close> of the scan comes from a \<^verbatim>\<open>human\<close> turn with value \<open>q\<close>
  and a later \<^verbatim>\<open>gpt\<close> turn with value \<open>a\<close>, with only ignored turns between them;
  when the scan starts with \<open>q\<close> pending, the question may lie before the list.
\<close>

lemma answered_in_scan:
  "QAPair q (Some a) \<in> set (spec_scan acc ts) \<Longrightarrow>
     (\<exists>pre mid post.
        ts = pre @ [\<lparr>turn_from = ''human'', turn_value = q\<rparr>] @ mid
               @ [\<lparr>turn_from = ''gpt'', turn_value = a\<rparr>] @ post
        \<and> list_all other_role mid)
   \<or> (acc = HasQuestion q \<and>
       (\<exists>mid post. ts = mid @ [\<lparr>turn_from = ''gpt'', turn_value = a\<rparr>] @ post
          \<and> list_all other_role mid))"
proof (induction ts arbitrary: acc)
  case Nil
  then show ?case by (cases acc) simp_all
next
  case (Cons t ts)
  have t_eq: "t = \<lparr>turn_from = turn_from t, turn_value = turn_value t\<rparr>" by simp
  have shift: "\<exists>pre mid post.
        t # ts = pre @ [\<lparr>turn_from = ''human'', turn_value = q\<rparr>] @ mid
               @ [\<lparr>turn_from = ''gpt'', turn_value = a\<rparr>] @ post
        \<and> list_all other_role mid"
    if "\<exists>pre mid post.
        ts = pre @ [\<lparr>turn_from = ''human'', turn_value = q\<rparr>] @ mid
               @ [\<lparr>turn_from = ''gpt'', turn_value = a\<rparr>] @ post
        \<and> list_all other_role mid"
  proof -
    from that obtain pre mid post where
      "ts = pre @ [\<lparr>turn_from = ''human'', turn_value = q\<rparr>] @ mid
               @ [\<lparr>turn_from = ''gpt'', turn_value = a\<rparr>] @ post" "list_all other_role mid"
      by blast
    then have "t # ts = (t # pre) @ [\<lparr>turn_from = ''human'', turn_value = q\<rparr>] @ mid
               @ [\<lparr>turn_from = ''gpt'', turn_value = a\<rparr>] @ post \<and> list_all other_role mid"
      by simp
    then show ?thesis by blast
  qed
  consider (human) "turn_from t = ''human''"
    | (gpt) "turn_from t = ''gpt''"
    | (other) "other_role t"
    by (auto simp: other_role_def)
  then show ?case
  proof cases
    case human
    with Cons.prems have "QAPair q (Some a) \<in> set (spec_scan (HasQuestion (turn_value t)) ts)"
      by (cases acc) simp_all
    from Cons.IH [OF this] show ?thesis
    proof
      assume "\<exists>pre mid post.
        ts = pre @ [\<lparr>turn_from = ''human'', turn_value = q\<rparr>] @ mid
               @ [\<lparr>turn_from = ''gpt'', turn_value = a\<rparr>] @ post
        \<and> list_all other_role mid"
      then show ?thesis using shift by blast
    next
      assume "HasQuestion (turn_value t) = HasQuestion q \<and>
       (\<exists>mid post. ts = mid @ [\<lparr>turn_from = ''gpt'', turn_value = a\<rparr>] @ post
          \<and> list_all other_role mid)"
      then obtain mid post where q: "turn_value t = q"
        and "ts = mid @ [\<lparr>turn_from = ''gpt'', turn_value = a\<rparr>] @ post" "list_all other_role mid"
        by auto
      with human t_eq have "t # ts = [] @ [\<lparr>turn_from = ''human'', turn_value = q\<rparr>] @ mid
               @ [\<lparr>turn_from = ''gpt'', turn_value = a\<rparr>] @ post \<and> list_all other_role mid"
        by simp
      then show ?thesis by blast
    qed
  next
    case gpt
    show ?thesis
    proof (cases acc)
      case Empty
      with gpt Cons.prems have "QAPair q (Some a) \<in> set (spec_scan Empty ts)" by simp
      from Cons.IH [OF this] show ?thesis using shift by blast
    next
      case (HasQuestion q')
      with gpt Cons.prems have
        "(q' = q \<and> turn_value t = a) \<or> QAPair q (Some a) \<in> set (spec_scan Empty ts)"
        by auto
      then show ?thesis
      proof
        assume "q' = q \<and> turn_value t = a"
        with gpt t_eq HasQuestion have "acc = HasQuestion q \<and>
           t # ts = [] @ [\<lparr>turn_from = ''gpt'', turn_value = a\<rparr>] @ ts \<and> list_all other_role []"
          by simp
        then show ?thesis by blast
      next
        assume "QAPair q (Some a) \<in> set (spec_scan Empty ts)"
        from Cons.IH [OF this] show ?thesis using shift by blast
      qed
    qed
  next
    case other
    with Cons.prems have "QAPair q (Some a) \<in> set (spec_scan acc ts)"
      by (simp add: other_role_def)
    from Cons.IH [OF this] show ?thesis
    proof
      assume "\<exists>pre mid post.
        ts = pre @ [\<lparr>turn_from = ''human'', turn_value = q\<rparr>] @ mid
               @ [\<lparr>turn_from = ''gpt'', turn_value = a\<rparr>] @ post
        \<and> list_all other_role mid"
      then show ?thesis using shift by blast
    next
      assume "acc = HasQuestion q \<and>
       (\<exists>mid post. ts = mid @ [\<lparr>turn_from = ''gpt'', turn_value = a\<rparr>] @ post
          \<and> list_all other_role mid)"
      then obtain mid post where "acc = HasQuestion q"
        "ts = mid @ [\<lparr>turn_from = ''gpt'', turn_value = a\<rparr>] @ post" "list_all other_role mid"
        by blast
      with other have "acc = HasQuestion q \<and>
         t # ts = (t # mid) @ [\<lparr>turn_from = ''gpt'', turn_value = a\<rparr>] @ post
         \<and> list_all other_role (t # mid)"
        by simp
      then show ?thesis by blast
    qed
  qed
qed

text \<open>
  Claim C8. Every \<^verbatim>\<open>human\<close> turn produces exactly one pair: there are as many pairs as
  \<^verbatim>\<open>human\<close> turns, and the questions of the pairs are the values of the \<^verbatim>\<open>human\<close>
  turns, in order. In every pair that has an answer \<open>a\<close>, the question \<open>q\<close> is the value
  of a \<^verbatim>\<open>human\<close> turn that stands before the \<^verbatim>\<open>gpt\<close> turn with value \<open>a\<close> in the turn
  list, with none but ignored turns between the two.
\<close>

theorem one_pair_per_human_turn:
  "length (qa_pairs_of ts) = length (filter (\<lambda>t. turn_from t = ''human'') ts)
   \<and> map (\<lambda>p. map_of p ''question'') (qa_pairs_of ts)
       = map (\<lambda>t. Some (turn_value t)) (filter (\<lambda>t. turn_from t = ''human'') ts)
   \<and> (\<forall>p \<in> set (qa_pairs_of ts). \<forall>a. map_of p ''answer'' = Some a \<longrightarrow>
         (\<exists>q pre mid post.
            map_of p ''question'' = Some q
            \<and> ts = pre @ [\<lparr>turn_from = ''human'', turn_value = q\<rparr>] @ mid
                     @ [\<lparr>turn_from = ''gpt'', turn_value = a\<rparr>] @ post
            \<and> list_all other_role mid))"
proof (intro conjI ballI allI impI)
  show "length (qa_pairs_of ts) = length (filter (\<lambda>t. turn_from t = ''human'') ts)"
    by (simp add: qa_pairs_of_scan length_spec_scan)
next
  have "map (\<lambda>p. map_of p ''question'') (qa_pairs_of ts)
          = map (\<lambda>p. Some (question p)) (spec_scan Empty ts)"
    by (simp add: qa_pairs_of_scan map_of_dict_of_pair comp_def)
  also have "\<dots> = map Some (map question (spec_scan Empty ts))"
    by simp
  also have "\<dots> = map (\<lambda>t. Some (turn_value t)) (filter (\<lambda>t. turn_from t = ''human'') ts)"
    by (simp add: questions_spec_scan)
  finally show "map (\<lambda>p. map_of p ''question'') (qa_pairs_of ts)
       = map (\<lambda>t. Some (turn_value t)) (filter (\<lambda>t. turn_from t = ''human'') ts)" .
next
  fix p a
  assume p: "p \<in> set (qa_pairs_of ts)" and a: "map_of p ''answer'' = Some a"
  from p obtain x where x: "x \<in> set (spec_scan Empty ts)" and px: "p = dict_of_pair x"
    by (auto simp: qa_pairs_of_scan)
  from a px have "answer x = Some a" by (simp add: map_of_dict_of_pair)
  then have "x = QAPair (question x) (Some a)" by (cases x) simp
  with x have "QAPair (question x) (Some a) \<in> set (spec_scan Empty ts)" by simp
  from answered_in_scan [OF this] obtain pre mid post where
    "ts = pre @ [\<lparr>turn_from = ''human'', turn_value = question x\<rparr>] @ mid
               @ [\<lparr>turn_from = ''gpt'', turn_value = a\<rparr>] @ post" "list_all other_role mid"
    by blast
  with px show "\<exists>q pre mid post.
            map_of p ''question'' = Some q
            \<and> ts = pre @ [\<lparr>turn_from = ''human'', turn_value = q\<rparr>] @ mid
                     @ [\<lparr>turn_from = ''gpt'', turn_value = a\<rparr>] @ post
            \<and> list_all other_role mid"
    by (auto simp: map_of_dict_of_pair)
qed

theorem one_pair_per_human_turn_witness:
  "length (qa_pairs_of [human ''Q1'', human ''Q2'', system_turn ''note'', gpt ''A2'']) = 2
   \<and> [(''question'', ''Q2''), (''answer'', ''A2'')]
         \<in> set (qa_pairs_of [human ''Q1'', human ''Q2'', system_turn ''note'', gpt ''A2''])
   \<and> (\<exists>q pre mid post.
         map_of [(''question'', ''Q2''), (''answer'', ''A2'')] ''question'' = Some q
         \<and> [human ''Q1'', human ''Q2'', system_turn ''note'', gpt ''A2'']
             = pre @ [\<lparr>turn_from = ''human'', turn_value = q\<rparr>] @ mid
                 @ [\<lparr>turn_from = ''gpt'', turn_value = ''A2''\<rparr>] @ post
         \<and> list_all other_role mid)"
proof -
  let ?ts = "[human ''Q1'', human ''Q2'', system_turn ''note'', gpt ''A2'']"
  let ?p = "[(''question'', ''Q2''), (''answer'', ''A2'')]"
  have pairs: "qa_pairs_of ?ts = [[(''question'', ''Q1'')], ?p]"
    by (simp add: qa_pairs_of_scan human_def gpt_def system_turn_def)
  then have mem: "?p \<in> set (qa_pairs_of ?ts)" by simp
  have ans: "map_of ?p ''answer'' = Some ''A2''" by simp
  from one_pair_per_human_turn [of ?ts] mem ans
  have "\<exists>q pre mid post.
         map_of ?p ''question'' = Some q
         \<and> ?ts = pre @ [\<lparr>turn_from = ''human'', turn_value = q\<rparr>] @ mid
                 @ [\<lparr>turn_from = ''gpt'', turn_value = ''A2''\<rparr>] @ post
         \<and> list_all other_role mid"
    by blast
  with pairs mem show ?thesis by simp
qed

section \<open>The edit merge\<close>

lemma turns_of_pairs_append:
  "turns_of_pairs (xs @ ys) = turns_of_pairs xs @ turns_of_pairs ys"
  by (induction xs rule: turns_of_pairs.induct) simp_all

lemma edit_loop_eq:
  "edit_loop u i pairs edited_pairs = edited_pairs @ turns_of_pairs (edited_fields u i pairs)"
  by (induction u i pairs edited_pairs rule: edit_loop.induct) (simp_all add: Let_def)

lemma new_loop_eq:
  "new_loop u idxs edited_pairs =
     edited_pairs @ turns_of_pairs (filter (\<lambda>(q, a). q \<noteq> [] \<or> a \<noteq> []) (map (new_slot u) idxs))"
  by (induction u idxs edited_pairs rule: new_loop.induct)
     (simp_all add: Let_def new_slot_def)

lemma display_conversations_eq:
  "display_conversations u ts =
     turns_of_pairs (edited_fields u 1 (qa_pairs_of ts)
       @ filter (\<lambda>(q, a). q \<noteq> [] \<or> a \<noteq> []) (map (new_slot u) [0 ..< num_new u]))"
  by (simp add: display_conversations_def edit_loop_eq new_loop_eq turns_of_pairs_append)

lemma alternating_turns_of_pairs: "alternating (turns_of_pairs xs)"
  by (induction xs rule: turns_of_pairs.induct) simp_all

lemma alternating_imp_pairs: "alternating ts \<Longrightarrow> \<exists>xs. ts = turns_of_pairs xs"
proof (induction ts rule: alternating.induct)
  case 1
  have "[] = turns_of_pairs []" by simp
  then show ?case by blast
next
  case (2 t)
  then show ?case by simp
next
  case (3 h g rest)
  then obtain xs where "rest = turns_of_pairs xs" by auto
  with 3 have "h # g # rest = turns_of_pairs ((turn_value h, turn_value g) # xs)" by simp
  then show ?case by blast
qed

lemma alternating_nth:
  "alternating ts \<Longrightarrow>
     even (length ts) \<and> (\<forall>i < length ts. turn_from (ts ! i) = (if even i then ''human'' else ''gpt''))"
proof (induction ts rule: alternating.induct)
  case 1
  show ?case by simp
next
  case (2 t)
  then show ?case by simp
next
  case (3 h g rest)
  then have IH: "even (length rest)"
    "\<And>i. i < length rest \<Longrightarrow> turn_from (rest ! i) = (if even i then ''human'' else ''gpt'')"
    by auto
  show ?case
  proof (intro conjI allI impI)
    show "even (length (h # g # rest))" using IH(1) by simp
  next
    fix i assume i: "i < length (h # g # rest)"
    show "turn_from ((h # g # rest) ! i) = (if even i then ''human'' else ''gpt'')"
    proof (cases i)
      case 0
      with 3 show ?thesis by simp
    next
      case (Suc j)
      show ?thesis
      proof (cases j)
        case 0
        with Suc 3 show ?thesis by simp
      next
        case (Suc k)
        with \<open>i = Suc j\<close> i have "k < length rest" by simp
        from IH(2) [OF this] \<open>i = Suc j\<close> Suc show ?thesis by simp
      qed
    qed
  qed
qed

text \<open>
  Claim C9. Whatever the turns of the record are and whatever the reviewer types, the
  turn list that \<^verbatim>\<open>display_conversations\<close> returns has even length, with \<^verbatim>\<open>human\<close> at
  every even position and \<^verbatim>\<open>gpt\<close> at every odd position.
\<close>

theorem merged_turns_alternate:
  "even (length (display_conversations u ts))
   \<and> (\<forall>i < length (display_conversations u ts).
         turn_from (display_conversations u ts ! i) = (if even i then ''human'' else ''gpt''))"
proof -
  have "alternating (display_conversations u ts)"
    by (simp only: display_conversations_eq alternating_turns_of_pairs)
  then show ?thesis by (rule alternating_nth)
qed

theorem merged_turns_alternate_witness:
  "display_conversations add_question [gpt ''orphan'', system_turn ''s'', human ''Q1'']
     = [human ''Q1'', gpt '''', human ''why?'', gpt '''']
   \<and> even (length (display_conversations add_question
                     [gpt ''orphan'', system_turn ''s'', human ''Q1'']))
   \<and> turn_from (display_conversations add_question
                   [gpt ''orphan'', system_turn ''s'', human ''Q1''] ! 2) = ''human''
   \<and> turn_from (display_conversations add_question
                   [gpt ''orphan'', system_turn ''s'', human ''Q1''] ! 3) = ''gpt''"
proof -
  let ?ts = "[gpt ''orphan'', system_turn ''s'', human ''Q1'']"
  have out: "display_conversations add_question ?ts
               = [human ''Q1'', gpt '''', human ''why?'', gpt '''']"
    by (simp add: display_conversations_eq qa_pairs_of_scan add_question_def new_slot_def
          dict_get_def human_def gpt_def system_turn_def numeral_2_eq_2 upt_conv_Cons)
  then have len: "(2::nat) < length (display_conversations add_question ?ts)"
    "(3::nat) < length (display_conversations add_question ?ts)"
    by simp_all
  from merged_turns_alternate [of add_question ?ts] len out show ?thesis
    by (simp add: human_def gpt_def)
qed

lemma new_loop_slots:
  "new_loop u idxs edited_pairs =
     edited_pairs @ concat (map (\<lambda>i. case new_slot u i of (q, a) \<Rightarrow>
        if q = [] \<and> a = [] then []
        else [\<lparr>turn_from = ''human'', turn_value = q\<rparr>, \<lparr>turn_from = ''gpt'', turn_value = a\<rparr>])
       idxs)"
  by (induction u idxs edited_pairs rule: new_loop.induct)
     (simp_all add: Let_def new_slot_def)

text \<open>
  Claim C6. The turns returned are the turns of the existing pairs as edited, followed by
  what each new slot contributes, in order: nothing when its question and its answer are
  both empty, and otherwise the two turns \<^verbatim>\<open>human\<close> and \<^verbatim>\<open>gpt\<close> with the texts typed, of
  which one may be empty. In particular, when the existing pairs are edited to the one
  pair \<open>(newQ, newA)\<close> and the one new slot is left empty, the result is the two turns of
  that pair.
\<close>

theorem empty_new_pairs_discarded:
  "display_conversations u ts =
     turns_of_pairs (edited_fields u 1 (qa_pairs_of ts))
     @ concat (map (\<lambda>i. case new_slot u i of (q, a) \<Rightarrow>
         if q = [] \<and> a = [] then []
         else [\<lparr>turn_from = ''human'', turn_value = q\<rparr>, \<lparr>turn_from = ''gpt'', turn_value = a\<rparr>])
        [0 ..< num_new u])
   \<and> (edited_fields u 1 (qa_pairs_of ts) = [(''newQ'', ''newA'')]
        \<and> num_new u = 1 \<and> new_slot u 0 = ('''', '''')
      \<longrightarrow> display_conversations u ts
            = [\<lparr>turn_from = ''human'', turn_value = ''newQ''\<rparr>,
               \<lparr>turn_from = ''gpt'', turn_value = ''newA''\<rparr>]
          \<and> length (display_conversations u ts) = 2)"
proof -
  have eq: "display_conversations u ts =
     turns_of_pairs (edited_fields u 1 (qa_pairs_of ts))
     @ concat (map (\<lambda>i. case new_slot u i of (q, a) \<Rightarrow>
         if q = [] \<and> a = [] then []
         else [\<lparr>turn_from = ''human'', turn_value = q\<rparr>, \<lparr>turn_from = ''gpt'', turn_value = a\<rparr>])
        [0 ..< num_new u])"
    by (simp add: display_conversations_def edit_loop_eq new_loop_slots)
  show ?thesis
  proof (intro conjI impI)
    show "display_conversations u ts =
     turns_of_pairs (edited_fields u 1 (qa_pairs_of ts))
     @ concat (map (\<lambda>i. case new_slot u i of (q, a) \<Rightarrow>
         if q = [] \<and> a = [] then []
         else [\<lparr>turn_from = ''human'', turn_value = q\<rparr>, \<lparr>turn_from = ''gpt'', turn_value = a\<rparr>])
        [0 ..< num_new u])"
      by (rule eq)
  next
    assume h: "edited_fields u 1 (qa_pairs_of ts) = [(''newQ'', ''newA'')]
        \<and> num_new u = 1 \<and> new_slot u 0 = ('''', '''')"
    then show "display_conversations u ts
            = [\<lparr>turn_from = ''human'', turn_value = ''newQ''\<rparr>,
               \<lparr>turn_from = ''gpt'', turn_value = ''newA''\<rparr>]"
      by (simp add: eq)
    then show "length (display_conversations u ts) = 2" by simp
  qed
qed

theorem empty_new_pairs_discarded_witness:
  "display_conversations rewrite_first [human ''Q'', gpt ''A'']
     = [\<lparr>turn_from = ''human'', turn_value = ''newQ''\<rparr>,
        \<lparr>turn_from = ''gpt'', turn_value = ''newA''\<rparr>]
   \<and> length (display_conversations rewrite_first [human ''Q'', gpt ''A'']) = 2
   \<and> display_conversations add_question [human ''Q'', gpt ''A'']
       = [human ''Q'', gpt ''A'', human ''why?'', gpt '''']"
proof -
  let ?ts = "[human ''Q'', gpt ''A'']"
  have pairs: "qa_pairs_of ?ts = [[(''question'', ''Q''), (''answer'', ''A'')]]"
    by (simp add: qa_pairs_of_scan human_def gpt_def)
  have h: "edited_fields rewrite_first 1 (qa_pairs_of ?ts) = [(''newQ'', ''newA'')]
        \<and> num_new rewrite_first = 1 \<and> new_slot rewrite_first 0 = ('''', '''')"
    by (simp add: pairs rewrite_first_def new_slot_def)
  have slots: "map (new_slot add_question) [0 ..< 2] = [('''', ''''), (''why?'', '''')]"
    by (simp add: add_question_def new_slot_def numeral_2_eq_2 upt_conv_Cons)
  have fields: "edited_fields add_question 1 (qa_pairs_of ?ts) = [(''Q'', ''A'')]"
    by (simp add: pairs add_question_def dict_get_def)
  have n: "num_new add_question = 2" by (simp add: add_question_def)
  have "concat (map (\<lambda>i. case new_slot add_question i of (q, a) \<Rightarrow>
         if q = [] \<and> a = [] then []
         else [\<lparr>turn_from = ''human'', turn_value = q\<rparr>, \<lparr>turn_from = ''gpt'', turn_value = a\<rparr>])
        [0 ..< 2]) = [human ''why?'', gpt '''']"
    by (simp add: add_question_def new_slot_def numeral_2_eq_2 upt_conv_Cons human_def gpt_def)
  with empty_new_pairs_discarded [of add_question ?ts] fields n
  have "display_conversations add_question ?ts = [human ''Q'', gpt ''A'', human ''why?'', gpt '''']"
    by (simp add: human_def gpt_def)
  with empty_new_pairs_discarded [of rewrite_first ?ts] h show ?thesis
    by simp
qed

subsection \<open>An unedited record\<close>

lemma spec_scan_turns_of_pairs:
  "spec_scan Empty (turns_of_pairs xs) = map (\<lambda>(q, a). QAPair q (Some a)) xs"
  by (induction xs rule: turns_of_pairs.induct) simp_all

lemma edited_fields_untouched:
  "untouched u \<Longrightarrow>
     edited_fields u i (map dict_of_pair (map (\<lambda>(q, a). QAPair q (Some a)) xs)) = xs"
  by (induction xs arbitrary: i) (auto simp: untouched_def dict_get_def)

lemma new_slots_untouched:
  "untouched u \<Longrightarrow> filter (\<lambda>(q, a). q \<noteq> [] \<or> a \<noteq> []) (map (new_slot u) idxs) = []"
  by (induction idxs) (simp_all add: untouched_def new_slot_def)

lemma display_untouched_pairs:
  assumes "untouched u"
  shows "display_conversations u (turns_of_pairs xs) = turns_of_pairs xs"
proof -
  have "qa_pairs_of (turns_of_pairs xs)
          = map dict_of_pair (map (\<lambda>(q, a). QAPair q (Some a)) xs)"
    by (simp only: qa_pairs_of_scan spec_scan_turns_of_pairs)
  then have "edited_fields u 1 (qa_pairs_of (turns_of_pairs xs)) = xs"
    by (simp only: edited_fields_untouched [OF assms])
  then show ?thesis
    by (simp only: display_conversations_eq new_slots_untouched [OF assms] append_Nil2)
qed

lemma display_untouched_iff:
  assumes "untouched u"
  shows "display_conversations u ts = ts \<longleftrightarrow> alternating ts"
proof
  assume "display_conversations u ts = ts"
  then have "ts = turns_of_pairs (edited_fields u 1 (qa_pairs_of ts)
       @ filter (\<lambda>(q, a). q \<noteq> [] \<or> a \<noteq> []) (map (new_slot u) [0 ..< num_new u]))"
    by (simp add: display_conversations_eq)
  then show "alternating ts" by (metis alternating_turns_of_pairs)
next
  assume "alternating ts"
  then obtain xs where "ts = turns_of_pairs xs" using alternating_imp_pairs by blast
  with assms show "display_conversations u ts = ts" by (simp add: display_untouched_pairs)
qed

text \<open>
  Claim C1, as stated, fails: an unedited record whose turns are not question/answer
  pairs comes back changed. The record with the turns \<open>Q1\<close>, \<open>Q2\<close>, \<open>A2\<close> of the
  specification's own example gains an empty answer after \<open>Q1\<close>.
\<close>

theorem unedited_round_trip_counterexample:
  "untouched no_edits
   \<and> display_conversations no_edits [human ''Q1'', human ''Q2'', gpt ''A2'']
       = [human ''Q1'', gpt '''', human ''Q2'', gpt ''A2'']
   \<and> display_conversations no_edits [human ''Q1'', human ''Q2'', gpt ''A2'']
       \<noteq> [human ''Q1'', human ''Q2'', gpt ''A2'']
   \<and> display_conversations no_edits [gpt ''orphan''] = []"
  by (simp add: untouched_def no_edits_def display_conversations_eq qa_pairs_of_scan
        new_slot_def dict_get_def human_def gpt_def)

text \<open>
  Claim C1, amended. When the reviewer changes nothing, \<^verbatim>\<open>display_conversations\<close> returns
  the turns it was given exactly when they are question/answer pairs: an even number of
  turns, \<^verbatim>\<open>human\<close> at the even positions and \<^verbatim>\<open>gpt\<close> at the odd ones. A record with such
  turns is then written back unchanged, and its serialization is the one of the original
  record.
\<close>

theorem unedited_pairs_round_trip:
  "untouched u \<Longrightarrow>
     (display_conversations u ts = ts \<longleftrightarrow> alternating ts)
     \<and> (alternating ts \<and> conversations it = Some ts \<longrightarrow>
          review_item u it = it
          \<and> conversations (review_item u it) = Some ts
          \<and> serialize_one L (review_item u it) = serialize_one L it)"
proof (intro conjI impI)
  assume u: "untouched u"
  show "display_conversations u ts = ts \<longleftrightarrow> alternating ts"
    by (rule display_untouched_iff [OF u])
  assume h: "alternating ts \<and> conversations it = Some ts"
  with u have "display_conversations u ts = ts" by (simp add: display_untouched_iff)
  with h show same: "review_item u it = it"
    by (simp add: review_item_def get_conversations_def)
  with h show "conversations (review_item u it) = Some ts" by simp
  from same show "serialize_one L (review_item u it) = serialize_one L it" by simp
qed

theorem unedited_pairs_round_trip_witness:
  "untouched no_edits
   \<and> alternating [human ''Q1'', gpt ''A1'', human ''Q2'', gpt ''A2'']
   \<and> display_conversations no_edits [human ''Q1'', gpt ''A1'', human ''Q2'', gpt ''A2'']
       = [human ''Q1'', gpt ''A1'', human ''Q2'', gpt ''A2'']
   \<and> review_item no_edits
        \<lparr>item_id = Some ''7'', image = None, caption = None,
         conversations = Some [human ''Q1'', gpt ''A1'', human ''Q2'', gpt ''A2'']\<rparr>
       = \<lparr>item_id = Some ''7'', image = None, caption = None,
          conversations = Some [human ''Q1'', gpt ''A1'', human ''Q2'', gpt ''A2'']\<rparr>
   \<and> serialize_one json_lib (review_item no_edits
        \<lparr>item_id = Some ''7'', image = None, caption = None,
         conversations = Some [human ''Q1'', gpt ''A1'', human ''Q2'', gpt ''A2'']\<rparr>)
       = serialize_one json_lib
        \<lparr>item_id = Some ''7'', image = None, caption = None,
         conversations = Some [human ''Q1'', gpt ''A1'', human ''Q2'', gpt ''A2'']\<rparr>"
proof -
  let ?ts = "[human ''Q1'', gpt ''A1'', human ''Q2'', gpt ''A2'']"
  let ?it = "\<lparr>item_id = Some ''7'', image = None, caption = None, conversations = Some ?ts\<rparr>"
  have u: "untouched no_edits" by (simp add: untouched_def no_edits_def)
  have a: "alternating ?ts" by (simp add: human_def gpt_def)
  have c: "conversations ?it = Some ?ts" by simp
  from unedited_pairs_round_trip [OF u, of ?ts ?it json_lib] a c u show ?thesis
    by simp
qed

section \<open>Loading\<close>

lemma raises_parse_line: "raises L line e \<longleftrightarrow> parse_line L line = Inl e"
  by (auto simp: raises_def parse_line_def split: sum.splits)

lemma load_loop_raises:
  "parse_line L line = Inl e \<Longrightarrow> load_loop L (line # rest) data = Inl e"
  by (auto simp: parse_line_def Let_def split: sum.splits if_splits)

lemma load_loop_blank:
  "parse_line L line = Inr None \<Longrightarrow> load_loop L (line # rest) data = load_loop L rest data"
  by (auto simp: parse_line_def Let_def split: sum.splits if_splits)

lemma load_loop_record:
  "parse_line L line = Inr (Some v) \<Longrightarrow>
     load_loop L (line # rest) data = load_loop L rest (data @ [v])"
  by (auto simp: parse_line_def Let_def split: sum.splits if_splits)

lemma load_loop_first_failure:
  "\<forall>x \<in> set pre. \<forall>e. \<not> raises L x e \<Longrightarrow> raises L line e \<Longrightarrow>
     load_loop L (pre @ line # post) data = Inl e"
proof (induction pre arbitrary: data)
  case Nil
  then have "parse_line L line = Inl e" by (simp only: raises_parse_line)
  then show ?case by (simp only: append_Nil load_loop_raises)
next
  case (Cons x pre)
  from Cons.prems have "\<forall>e. parse_line L x \<noteq> Inl e"
    by (simp add: raises_parse_line)
  then obtain r where r: "parse_line L x = Inr r" by (cases "parse_line L x") auto
  from Cons.prems have rest: "\<And>d. load_loop L (pre @ line # post) d = Inl e"
    by (intro Cons.IH) simp_all
  show ?case
  proof (cases r)
    case None
    with r have "load_loop L (x # pre @ line # post) data = load_loop L (pre @ line # post) data"
      by (simp only: load_loop_blank)
    with rest show ?thesis by simp
  next
    case (Some v)
    with r have "load_loop L (x # pre @ line # post) data
        = load_loop L (pre @ line # post) (data @ [v])"
      by (simp only: load_loop_record)
    with rest show ?thesis by simp
  qed
qed

text \<open>
  Claim C5. If some line of the uploaded file raises in the loop body (its bytes are not
  UTF-8, or it is not blank and is not JSON), \<^verbatim>\<open>load_jsonl_data\<close> returns \<^verbatim>\<open>None\<close>, so no
  list with the records of the earlier lines is returned, and it reports exactly one
  error, which carries the message of the exception of the first line that raises.
\<close>

theorem load_fails_fast:
  "line \<in> set (iter_lines (CHR 0x0A) uploaded_file) \<Longrightarrow> raises L line e \<Longrightarrow>
     fst (load_jsonl_data L uploaded_file) = None
     \<and> (\<exists>pre first post cause.
           iter_lines (CHR 0x0A) uploaded_file = pre @ first # post
           \<and> (\<forall>x \<in> set pre. \<forall>e'. \<not> raises L x e')
           \<and> raises L first cause
           \<and> load_jsonl_data L uploaded_file
               = (None, [Error_loading_JSONL_file (str_exn cause)]))"
proof -
  assume "line \<in> set (iter_lines (CHR 0x0A) uploaded_file)" and "raises L line e"
  then have "\<exists>x \<in> set (iter_lines (CHR 0x0A) uploaded_file). \<exists>e'. raises L x e'"
    by blast
  from split_list_first_prop [OF this] obtain pre first post where
    lines: "iter_lines (CHR 0x0A) uploaded_file = pre @ first # post"
    and first: "\<exists>e'. raises L first e'"
    and pre: "\<forall>x \<in> set pre. \<not> (\<exists>e'. raises L x e')"
    by blast
  from first obtain cause where cause: "raises L first cause" by blast
  from pre have pre': "\<forall>x \<in> set pre. \<forall>e'. \<not> raises L x e'" by blast
  from load_loop_first_failure [OF pre' cause]
  have "load_loop L (iter_lines (CHR 0x0A) uploaded_file) [] = Inl cause"
    by (simp add: lines)
  then have res: "load_jsonl_data L uploaded_file
      = (None, [Error_loading_JSONL_file (str_exn cause)])"
    by (simp add: load_jsonl_data_def)
  with lines pre' cause show ?thesis by auto
qed

theorem load_fails_fast_witness:
  "raises json_lib ''{\"id\": 7''  (JSONDecodeError ''Expecting value'')
   \<and> load_jsonl_data json_lib
        [CHR ''{'', CHR ''\"'', CHR ''i'', CHR ''d'', CHR ''\"'', CHR '':'', CHR '' '',
         CHR ''\"'', CHR ''1'', CHR ''\"'', CHR ''}'', CHR 0x0A,
         CHR ''{'', CHR ''\"'', CHR ''i'', CHR ''d'', CHR ''\"'', CHR '':'', CHR '' '', CHR ''7'']
       = (None, [Error_loading_JSONL_file ''Expecting value''])"
proof -
  let ?bad = "''{\"id\": 7''"
  let ?file = "[CHR ''{'', CHR ''\"'', CHR ''i'', CHR ''d'', CHR ''\"'', CHR '':'', CHR '' '',
         CHR ''\"'', CHR ''1'', CHR ''\"'', CHR ''}'', CHR 0x0A,
         CHR ''{'', CHR ''\"'', CHR ''i'', CHR ''d'', CHR ''\"'', CHR '':'', CHR '' '', CHR ''7'']"
  have lines: "iter_lines (CHR 0x0A) ?file = [''{\"id\": \"1\"}'' @ [CHR 0x0A], ?bad]"
    by code_simp
  have ok: "parse_line json_lib (''{\"id\": \"1\"}'' @ [CHR 0x0A])
              = Inr (Some \<lparr>item_id = Some ''1'', image = None, caption = None, conversations = None\<rparr>)"
    by code_simp
  have bad: "parse_line json_lib ?bad = Inl (JSONDecodeError ''Expecting value'')"
    by code_simp
  then have r: "raises json_lib ?bad (JSONDecodeError ''Expecting value'')"
    by (simp only: raises_parse_line)
  have mem: "?bad \<in> set (iter_lines (CHR 0x0A) ?file)"
    by (simp only: lines) simp
  from load_fails_fast [OF mem r] obtain pre first post cause where
    d: "iter_lines (CHR 0x0A) ?file = pre @ first # post"
    and p: "\<forall>x \<in> set pre. \<forall>e'. \<not> raises json_lib x e'"
    and c: "raises json_lib first cause"
    and l: "load_jsonl_data json_lib ?file = (None, [Error_loading_JSONL_file (str_exn cause)])"
    by blast
  from d lines have "pre @ first # post = [''{\"id\": \"1\"}'' @ [CHR 0x0A], ?bad]" by simp
  then have "(pre = [] \<and> first = ''{\"id\": \"1\"}'' @ [CHR 0x0A])
      \<or> (pre = [''{\"id\": \"1\"}'' @ [CHR 0x0A]] \<and> first = ?bad)"
    by (cases pre; cases "tl pre") auto
  with c ok bad have "cause = JSONDecodeError ''Expecting value''"
    by (auto simp: raises_parse_line)
  with l r show ?thesis by simp
qed

subsection \<open>A file of blank lines\<close>

lemma strip_blank: "list_all (isspace L) s \<Longrightarrow> strip L s = []"
proof -
  assume "list_all (isspace L) s"
  then have "\<forall>c \<in> set s. isspace L c"
    by (simp only: list_all_iff)
  then have "dropWhile (isspace L) s = []"
    by (simp only: dropWhile_eq_Nil_conv)
  then show ?thesis by (simp only: strip_def rev.simps dropWhile.simps)
qed

lemma parse_line_blank:
  "decode L line = Inr s \<Longrightarrow> list_all (isspace L) s \<Longrightarrow> parse_line L line = Inr None"
  by (simp add: parse_line_def strip_blank)

lemma load_loop_all_blank:
  "\<forall>line \<in> set ls. parse_line L line = Inr None \<Longrightarrow> load_loop L ls data = Inr data"
proof (induction ls)
  case Nil
  show ?case by simp
next
  case (Cons l ls)
  then have "load_loop L (l # ls) data = load_loop L ls data"
    by (simp only: load_loop_blank list.set_intros ball_simps)
  with Cons show ?case by simp
qed

lemma main_load_failed:
  "truthy uploaded_images \<Longrightarrow> fst (load_jsonl_data L file) = None \<Longrightarrow>
     main L u (Some file) uploaded_images = (Returned, snd (load_jsonl_data L file))"
  by (cases "load_jsonl_data L file") (simp add: main_def)

lemma main_load_empty:
  "truthy uploaded_images \<Longrightarrow> fst (load_jsonl_data L file) = Some [] \<Longrightarrow>
     main L u (Some file) uploaded_images = (Returned, snd (load_jsonl_data L file))"
  by (cases "load_jsonl_data L file") (simp add: main_def)

text \<open>
  Claim C10. When every line of the uploaded file decodes to whitespace only,
  \<^verbatim>\<open>load_jsonl_data\<close> succeeds with the empty list and reports no error. With images
  uploaded, \<^verbatim>\<open>main\<close> then ends at the \<^verbatim>\<open>return\<close> of line 82 without a page, the same way
  it ends for every file on which the load fails.
\<close>

theorem blank_file_is_empty_dataset_and_returns:
  "\<forall>line \<in> set (iter_lines (CHR 0x0A) file). \<exists>s. decode L line = Inr s \<and> list_all (isspace L) s \<Longrightarrow>
   truthy uploaded_images \<Longrightarrow>
     load_jsonl_data L file = (Some [], [])
     \<and> main L u (Some file) uploaded_images = (Returned, [])
     \<and> (\<forall>failing. fst (load_jsonl_data L failing) = None \<longrightarrow>
           fst (main L u (Some failing) uploaded_images) = Returned)"
proof (intro conjI allI impI)
  assume blank: "\<forall>line \<in> set (iter_lines (CHR 0x0A) file).
      \<exists>s. decode L line = Inr s \<and> list_all (isspace L) s"
    and imgs: "truthy uploaded_images"
  from blank have "\<forall>line \<in> set (iter_lines (CHR 0x0A) file). parse_line L line = Inr None"
    by (auto simp: parse_line_blank)
  then have "load_loop L (iter_lines (CHR 0x0A) file) [] = Inr []"
    by (rule load_loop_all_blank)
  then show loaded: "load_jsonl_data L file = (Some [], [])"
    by (simp add: load_jsonl_data_def)
  from loaded have "fst (load_jsonl_data L file) = Some []" by simp
  from main_load_empty [OF imgs this] loaded
  show "main L u (Some file) uploaded_images = (Returned, [])" by simp
  fix failing
  assume "fst (load_jsonl_data L failing) = None"
  from main_load_failed [OF imgs this]
  show "fst (main L u (Some failing) uploaded_images) = Returned" by simp
qed

theorem blank_file_is_empty_dataset_and_returns_witness:
  "load_jsonl_data json_lib [CHR 0x0A, CHR '' '', CHR 0x09, CHR 0x0D, CHR 0x0A, CHR 0xC2, CHR 0xA0]
     = (Some ([] :: item list), [])
   \<and> main json_lib no_edits
        (Some [CHR 0x0A, CHR '' '', CHR 0x09, CHR 0x0D, CHR 0x0A, CHR 0xC2, CHR 0xA0])
        [''page_7.png'']
       = (Returned, [])
   \<and> fst (load_jsonl_data json_lib ''{\"id\": 7'') = (None :: item list option)
   \<and> fst (main json_lib no_edits (Some ''{\"id\": 7'') [''page_7.png'']) = Returned"
proof -
  let ?file = "[CHR 0x0A, CHR '' '', CHR 0x09, CHR 0x0D, CHR 0x0A, CHR 0xC2, CHR 0xA0]"
  have lines: "iter_lines (CHR 0x0A) ?file
      = [[CHR 0x0A], [CHR '' '', CHR 0x09, CHR 0x0D, CHR 0x0A], [CHR 0xC2, CHR 0xA0]]"
    by code_simp
  have d1: "decode json_lib [CHR 0x0A] = Inr [CHR 0x0A]
      \<and> list_all (isspace json_lib) [CHR 0x0A]"
    by code_simp
  have d2: "decode json_lib [CHR '' '', CHR 0x09, CHR 0x0D, CHR 0x0A]
        = Inr [CHR '' '', CHR 0x09, CHR 0x0D, CHR 0x0A]
      \<and> list_all (isspace json_lib) [CHR '' '', CHR 0x09, CHR 0x0D, CHR 0x0A]"
    by code_simp
  have d3: "decode json_lib [CHR 0xC2, CHR 0xA0] = Inr [CHR 0xA0]
      \<and> list_all (isspace json_lib) [CHR 0xA0]"
    by code_simp
  have blank: "\<forall>line \<in> set (iter_lines (CHR 0x0A) ?file).
      \<exists>s. decode json_lib line = Inr s \<and> list_all (isspace json_lib) s"
    unfolding lines using d1 d2 d3 by auto
  have imgs: "truthy [''page_7.png'']" by simp
  have failed: "fst (load_jsonl_data json_lib ''{\"id\": 7'') = (None :: item list option)"
    by code_simp
  from blank_file_is_empty_dataset_and_returns [OF blank imgs, of no_edits] failed
  show ?thesis by simp
qed

section \<open>Serializing and loading again\<close>

subsection \<open>Lines\<close>






subsection \<open>Stripping the text of a record\<close>




subsection \<open>Encoding\<close>






subsection \<open>The round trip\<close>







subsection \<open>The library instance meets what the round trip needs\<close>



subsection \<open>Strings are read back\<close>





lemma char_neq_by_code: "(of_char c :: nat) \<noteq> of_char d \<Longrightarrow> c \<noteq> d"
  by auto

lemma escape_char_plain:
  assumes "32 \<le> (of_char c :: nat)" and "c \<noteq> CHR ''\"''" and "c \<noteq> CHR 0x5C"
  shows "escape_char False c = [c]"
proof -
  from assms(1) have "c \<noteq> CHR 0x0A" "c \<noteq> CHR 0x0D" "c \<noteq> CHR 0x09" "c \<noteq> CHR 0x08"
    "c \<noteq> CHR 0x0C"
    by (intro char_neq_by_code; simp)+
  with assms show ?thesis by (simp add: escape_char_def)
qed

lemma escape_char_non_ascii:
  assumes "128 \<le> (of_char c :: nat)"
  shows "escape_char False c = [c]"
proof -
  from assms have "c \<noteq> CHR ''\"''" "c \<noteq> CHR 0x5C"
    by (intro char_neq_by_code; simp)+
  moreover from assms have "32 \<le> (of_char c :: nat)" by simp
  ultimately show ?thesis by (simp add: escape_char_plain)
qed



subsection \<open>The compact text\<close>







subsection \<open>Whitespace before a value\<close>











subsection \<open>Arrays and objects are read back\<close>






subsection \<open>No newline in a compact text\<close>




subsection \<open>Records are read back\<close>







subsection \<open>UTF-8 is read back\<close>





subsection \<open>Every record round-trips through the library\<close>





subsection \<open>Characters outside ASCII are written as they are\<close>

lemma ascii_not_non_ascii: "(of_char c :: nat) < 128 \<Longrightarrow> \<not> non_ascii c"
  by (simp add: non_ascii_def)

lemma hex_digit_ascii: "\<not> non_ascii (hex_digit n)"
proof -
  have "list_all (\<lambda>n. \<not> non_ascii (hex_digit n)) [0 ..< 16]" by code_simp
  then have "\<not> non_ascii (hex_digit (n mod 16))" by (simp add: list_all_iff)
  then show ?thesis by (simp add: hex_digit_def)
qed

lemma filter_escape_char:
  "filter non_ascii (escape_char False c) = (if non_ascii c then [c] else [])"
proof (cases "non_ascii c")
  case True
  then have "escape_char False c = [c]" by (simp add: non_ascii_def escape_char_non_ascii)
  with True show ?thesis by simp
next
  case False
  then show ?thesis
    by (simp add: escape_char_def hex_digit_ascii ascii_not_non_ascii)
qed

lemma filter_escaped: "filter non_ascii (concat (map (escape_char False) s)) = filter non_ascii s"
  by (induction s) (simp_all add: filter_escape_char)

lemma filter_quote: "filter non_ascii (quote False s) = filter non_ascii s"
  by (simp add: quote_def filter_escaped ascii_not_non_ascii)





lemma filter_print_member:
  "filter non_ascii (quote False k @ '': '' @ print_json False None lvl v)
     = filter non_ascii k @ filter non_ascii (print_json False None lvl v)"
  by (simp add: filter_quote ascii_not_non_ascii)





subsection \<open>Every dataset\<close>









end
